theory Spec2Isabelle
  imports Main
begin

section \<open>The stored tables\<close>

text \<open>
  The application is a browser client over a hosted Postgres database. The tables come
  from \<^verbatim>\<open>supabase/migrations/20251105034427_create_barbershop_schema.sql\<close>, the
  row types from \<^verbatim>\<open>src/lib/supabase.ts\<close>. Identifiers are uuid strings and
  timestamps are ISO strings; a nullable column is an \<open>option\<close>. Only the columns that
  a policy, a constraint or a handler reads are kept for \<open>profiles\<close>, \<open>shops\<close> and
  \<open>shop_barbers\<close>; \<open>appointments\<close> has all twelve columns. The column \<open>id\<close> is
  written \<open>a_id\<close>, \<open>p_id\<close>, \<open>s_id\<close> since \<open>id\<close> is the identity function of HOL,
  and the column \<open>notes\<close> is written \<open>notes_text\<close> since \<open>notes\<close> is a keyword.
\<close>

type_synonym uuid = string
type_synonym timestamp = string

record profile =
  p_id :: uuid
  p_role :: string

record shop =
  s_id :: uuid
  s_name :: string

record shop_barber =
  sb_shop_id :: uuid
  sb_barber_id :: uuid

record appointment =
  a_id :: uuid
  shop_id :: uuid
  customer_id :: uuid
  barber_id :: "uuid option"
  status :: string
  queue_position :: int
  service_type :: string
  notes_text :: "string option"
  created_at :: timestamp
  started_at :: "timestamp option"
  completed_at :: "timestamp option"
  updated_at :: timestamp

record db =
  profiles :: "profile list"
  shops :: "shop list"
  shop_barbers :: "shop_barber list"
  appointments :: "appointment list"

datatype pg_error =
  NumericOutOfRange | RlsViolation | CheckViolation | UniqueViolation | ForeignKeyViolation

section \<open>Row-level security policies on appointments\<close>

text \<open>
  Every request is made as the signed-in user, \<open>auth.uid()\<close>, here \<open>uid\<close>. Row-level
  security is enabled on the table, so a statement sees and writes only the rows its
  policies admit. Policies for the same command are permissive and combine with OR.
\<close>

definition in_shop_barbers :: "db \<Rightarrow> uuid \<Rightarrow> uuid \<Rightarrow> bool" where
  \<comment> \<open>EXISTS (SELECT 1 FROM shop\_barbers WHERE shop\_id = sid AND barber\_id = auth.uid())\<close>
  "in_shop_barbers d sid uid =
     list_ex (\<lambda>sb. sb_shop_id sb = sid \<and> sb_barber_id sb = uid) (shop_barbers d)"

definition has_role :: "db \<Rightarrow> uuid \<Rightarrow> string \<Rightarrow> bool" where
  \<comment> \<open>EXISTS (SELECT 1 FROM profiles WHERE id = auth.uid() AND role = r)\<close>
  "has_role d uid r = list_ex (\<lambda>p. p_id p = uid \<and> p_role p = r) (profiles d)"

definition customers_can_view_own_appointments :: "db \<Rightarrow> uuid \<Rightarrow> appointment \<Rightarrow> bool" where
  \<comment> \<open>FOR SELECT USING (lines 199-210); a NULL barber\_id equals nobody\<close>
  "customers_can_view_own_appointments d uid a =
     (uid = customer_id a \<or> Some uid = barber_id a \<or> in_shop_barbers d (shop_id a) uid)"

definition customers_can_create_appointments :: "db \<Rightarrow> uuid \<Rightarrow> appointment \<Rightarrow> bool" where
  \<comment> \<open>FOR INSERT WITH CHECK (lines 212-222)\<close>
  "customers_can_create_appointments d uid a =
     (uid = customer_id a \<and> has_role d uid ''customer'')"

definition customers_can_cancel_using :: "db \<Rightarrow> uuid \<Rightarrow> appointment \<Rightarrow> bool" where
  \<comment> \<open>FOR UPDATE USING (line 227)\<close>
  "customers_can_cancel_using d uid a = (uid = customer_id a)"

definition customers_can_cancel_check :: "db \<Rightarrow> uuid \<Rightarrow> appointment \<Rightarrow> bool" where
  \<comment> \<open>FOR UPDATE WITH CHECK (lines 228-231), on the new row\<close>
  "customers_can_cancel_check d uid a = (uid = customer_id a \<and> status a = ''cancelled'')"

definition barbers_can_update :: "db \<Rightarrow> uuid \<Rightarrow> appointment \<Rightarrow> bool" where
  \<comment> \<open>FOR UPDATE, USING and WITH CHECK alike (lines 233-249)\<close>
  "barbers_can_update d uid a = in_shop_barbers d (shop_id a) uid"

definition update_using :: "db \<Rightarrow> uuid \<Rightarrow> appointment \<Rightarrow> bool" where
  \<comment> \<open>an UPDATE with a WHERE clause needs the row to pass the SELECT policy too\<close>
  "update_using d uid a =
     (customers_can_view_own_appointments d uid a \<and>
      (customers_can_cancel_using d uid a \<or> barbers_can_update d uid a))"

definition update_check :: "db \<Rightarrow> uuid \<Rightarrow> appointment \<Rightarrow> bool" where
  "update_check d uid a =
     (customers_can_cancel_check d uid a \<or> barbers_can_update d uid a)"

section \<open>Table constraints\<close>

definition status_check :: "string \<Rightarrow> bool" where
  \<comment> \<open>CHECK (status IN ('waiting', 'in\_progress', 'completed', 'cancelled'))\<close>
  "status_check s =
     (s = ''waiting'' \<or> s = ''in_progress'' \<or> s = ''completed'' \<or> s = ''cancelled'')"

definition int4_ok :: "int \<Rightarrow> bool" where
  \<comment> \<open>the column type integer\<close>
  "int4_ok n = (- 2147483648 \<le> n \<and> n \<le> 2147483647)"

definition shop_exists :: "db \<Rightarrow> uuid \<Rightarrow> bool" where
  \<comment> \<open>REFERENCES shops(id)\<close>
  "shop_exists d sid = list_ex (\<lambda>s. s_id s = sid) (shops d)"

definition profile_exists :: "db \<Rightarrow> uuid \<Rightarrow> bool" where
  \<comment> \<open>REFERENCES profiles(id)\<close>
  "profile_exists d uid = list_ex (\<lambda>p. p_id p = uid) (profiles d)"

definition id_taken :: "db \<Rightarrow> uuid \<Rightarrow> bool" where
  \<comment> \<open>PRIMARY KEY\<close>
  "id_taken d i = list_ex (\<lambda>a. a_id a = i) (appointments d)"

section \<open>Statements\<close>

subsection \<open>INSERT\<close>

text \<open>
  The insert of lines 54-63 asks for no row back, so only the INSERT policy applies. The
  value is cast to the column type first, then the policy's WITH CHECK is evaluated on
  the new row, then the CHECK constraint, the primary key and the foreign keys. Any
  failure is an error and nothing is written.
\<close>

definition insert_appointment :: "db \<Rightarrow> uuid \<Rightarrow> appointment \<Rightarrow> pg_error option \<times> db" where
  "insert_appointment d uid a =
     (if \<not> int4_ok (queue_position a) then (Some NumericOutOfRange, d)
      else if \<not> customers_can_create_appointments d uid a then (Some RlsViolation, d)
      else if \<not> status_check (status a) then (Some CheckViolation, d)
      else if id_taken d (a_id a) then (Some UniqueViolation, d)
      else if \<not> (shop_exists d (shop_id a) \<and> profile_exists d (customer_id a) \<and>
                 (case barber_id a of None \<Rightarrow> True | Some b \<Rightarrow> profile_exists d b))
        then (Some ForeignKeyViolation, d)
      else (None, d\<lparr>appointments := appointments d @ [a]\<rparr>))"

subsection \<open>UPDATE ... WHERE id = i\<close>

text \<open>
  The body of an update is a \<open>Partial<Appointment>\<close>: a key that is absent (or
  \<open>undefined\<close>, which JSON drops) leaves its column alone.
\<close>

record patch =
  u_id :: "uuid option"
  u_shop_id :: "uuid option"
  u_customer_id :: "uuid option"
  u_barber_id :: "uuid option"
  u_status :: "string option"
  u_queue_position :: "int option"
  u_service_type :: "string option"
  u_notes :: "string option"
  u_created_at :: "timestamp option"
  u_started_at :: "timestamp option"
  u_completed_at :: "timestamp option"
  u_updated_at :: "timestamp option"

definition no_updates :: patch where
  \<comment> \<open>the object \{\}\<close>
  "no_updates = \<lparr>u_id = None, u_shop_id = None, u_customer_id = None, u_barber_id = None,
     u_status = None, u_queue_position = None, u_service_type = None, u_notes = None,
     u_created_at = None, u_started_at = None, u_completed_at = None, u_updated_at = None\<rparr>"

definition keep :: "'a option \<Rightarrow> 'a \<Rightarrow> 'a" where
  "keep v old = (case v of None \<Rightarrow> old | Some x \<Rightarrow> x)"

definition keep_null :: "'a option \<Rightarrow> 'a option \<Rightarrow> 'a option" where
  "keep_null v old = (case v of None \<Rightarrow> old | Some x \<Rightarrow> Some x)"

definition spread :: "patch \<Rightarrow> patch \<Rightarrow> patch" where
  \<comment> \<open>\{ ...p, ...q \}: the keys of q win\<close>
  "spread p q =
     \<lparr>u_id = keep_null (u_id q) (u_id p),
      u_shop_id = keep_null (u_shop_id q) (u_shop_id p),
      u_customer_id = keep_null (u_customer_id q) (u_customer_id p),
      u_barber_id = keep_null (u_barber_id q) (u_barber_id p),
      u_status = keep_null (u_status q) (u_status p),
      u_queue_position = keep_null (u_queue_position q) (u_queue_position p),
      u_service_type = keep_null (u_service_type q) (u_service_type p),
      u_notes = keep_null (u_notes q) (u_notes p),
      u_created_at = keep_null (u_created_at q) (u_created_at p),
      u_started_at = keep_null (u_started_at q) (u_started_at p),
      u_completed_at = keep_null (u_completed_at q) (u_completed_at p),
      u_updated_at = keep_null (u_updated_at q) (u_updated_at p)\<rparr>"

definition set_columns :: "patch \<Rightarrow> appointment \<Rightarrow> appointment" where
  "set_columns p a =
     \<lparr>a_id = keep (u_id p) (a_id a),
      shop_id = keep (u_shop_id p) (shop_id a),
      customer_id = keep (u_customer_id p) (customer_id a),
      barber_id = keep_null (u_barber_id p) (barber_id a),
      status = keep (u_status p) (status a),
      queue_position = keep (u_queue_position p) (queue_position a),
      service_type = keep (u_service_type p) (service_type a),
      notes_text = keep_null (u_notes p) (notes_text a),
      created_at = keep (u_created_at p) (created_at a),
      started_at = keep_null (u_started_at p) (started_at a),
      completed_at = keep_null (u_completed_at p) (completed_at a),
      updated_at = keep (u_updated_at p) (updated_at a)\<rparr>"

text \<open>
  An update reaches the rows with the given id that the policies show to the user; a row
  they hide is skipped without an error, and an update that reaches no row succeeds. Each
  new row must pass the WITH CHECK of one of the UPDATE policies (it then passes the
  SELECT policy as well), or the statement fails with nothing written. Constraints are
  checked on the columns the statement writes; \<open>updated_at\<close> has a default and no
  trigger, so an update leaves it alone.
\<close>

definition targeted :: "db \<Rightarrow> uuid \<Rightarrow> uuid \<Rightarrow> appointment \<Rightarrow> bool" where
  \<comment> \<open>the rows the statement reaches: WHERE id = i, among those the policies show\<close>
  "targeted d uid i a = (a_id a = i \<and> update_using d uid a)"

definition patch_check_ok :: "patch \<Rightarrow> bool" where
  "patch_check_ok p = (case u_status p of None \<Rightarrow> True | Some s \<Rightarrow> status_check s)"

definition patch_range_ok :: "patch \<Rightarrow> bool" where
  "patch_range_ok p = (case u_queue_position p of None \<Rightarrow> True | Some n \<Rightarrow> int4_ok n)"

definition patch_fk_ok :: "db \<Rightarrow> patch \<Rightarrow> bool" where
  "patch_fk_ok d p =
     ((case u_shop_id p of None \<Rightarrow> True | Some s \<Rightarrow> shop_exists d s) \<and>
      (case u_customer_id p of None \<Rightarrow> True | Some c \<Rightarrow> profile_exists d c) \<and>
      (case u_barber_id p of None \<Rightarrow> True | Some b \<Rightarrow> profile_exists d b))"

definition patch_pk_ok :: "patch \<Rightarrow> appointment list \<Rightarrow> bool" where
  "patch_pk_ok p rows = (case u_id p of None \<Rightarrow> True | Some _ \<Rightarrow> distinct (map a_id rows))"

definition update_appointments :: "db \<Rightarrow> uuid \<Rightarrow> uuid \<Rightarrow> patch \<Rightarrow> pg_error option \<times> db" where
  "update_appointments d uid i p =
     (let rows = map (\<lambda>a. if targeted d uid i a then set_columns p a else a) (appointments d);
          written = map (set_columns p) (filter (targeted d uid i) (appointments d))
      in if written = [] then (None, d)
         else if \<not> patch_range_ok p then (Some NumericOutOfRange, d)
         else if \<not> list_all (update_check d uid) written then (Some RlsViolation, d)
         else if \<not> patch_check_ok p then (Some CheckViolation, d)
         else if \<not> patch_pk_ok p rows then (Some UniqueViolation, d)
         else if \<not> patch_fk_ok d p then (Some ForeignKeyViolation, d)
         else (None, d\<lparr>appointments := rows\<rparr>))"

section \<open>CustomerDashboard.tsx\<close>

datatype outcome = Returned | Alerted string | Finished

subsection \<open>createAppointment, lines 38-76\<close>

definition order_desc :: "int list \<Rightarrow> int list" where
  \<comment> \<open>.order('queue\_position', \{ ascending: false \})\<close>
  "order_desc ns = rev (sort ns)"

definition maybeSingle :: "'a list \<Rightarrow> 'a option" where
  \<comment> \<open>data is null for no row and, with an error, for more than one\<close>
  "maybeSingle rows = (case rows of [x] \<Rightarrow> Some x | _ \<Rightarrow> None)"

definition queueData :: "db \<Rightarrow> uuid \<Rightarrow> uuid \<Rightarrow> int option" where
  \<comment> \<open>lines 43-50; the SELECT policy filters the rows before the query's own filters\<close>
  "queueData d uid sid =
     maybeSingle (take 1 (order_desc (map queue_position
       (filter (\<lambda>a. customers_can_view_own_appointments d uid a \<and>
                     shop_id a = sid \<and> status a = ''waiting'') (appointments d)))))"

definition nextPosition :: "int option \<Rightarrow> int" where
  \<comment> \<open>line 52\<close>
  "nextPosition q = (case q of Some n \<Rightarrow> n + 1 | None \<Rightarrow> 1)"

definition new_row ::
  "uuid \<Rightarrow> timestamp \<Rightarrow> uuid \<Rightarrow> uuid \<Rightarrow> string \<Rightarrow> string \<Rightarrow> int \<Rightarrow> appointment" where
  \<comment> \<open>the object of lines 56-63, with the column defaults: id gen\_random\_uuid(),
      created\_at and updated\_at now(), the rest NULL\<close>
  "new_row new_id db_now sid uid serviceType notes_in pos =
     \<lparr>a_id = new_id, shop_id = sid, customer_id = uid, barber_id = None,
      status = ''waiting'', queue_position = pos, service_type = serviceType,
      notes_text = (if notes_in = [] then None else Some notes_in),
      created_at = db_now, started_at = None, completed_at = None, updated_at = db_now\<rparr>"

definition createAppointment ::
  "uuid \<Rightarrow> uuid \<Rightarrow> timestamp \<Rightarrow> shop option \<Rightarrow> string \<Rightarrow> string \<Rightarrow> db \<Rightarrow> outcome \<times> db" where
  "createAppointment uid new_id db_now selectedShop serviceType notes_in d =
     (case selectedShop of
        None \<Rightarrow> (Returned, d)
      | Some sh \<Rightarrow>
          if serviceType = [] then (Returned, d)
          else
            (case insert_appointment d uid
                    (new_row new_id db_now (s_id sh) uid serviceType notes_in
                       (nextPosition (queueData d uid (s_id sh)))) of
               (Some e, d') \<Rightarrow> (Alerted ''Failed to create appointment'', d')
             | (None, d') \<Rightarrow> (Finished, d')))"

subsection \<open>cancelAppointment, lines 78-87\<close>

text \<open>The handler returns nothing; the model returns the error it reads and the tables.\<close>

definition cancelAppointment :: "uuid \<Rightarrow> uuid \<Rightarrow> db \<Rightarrow> pg_error option \<times> db" where
  "cancelAppointment uid i d =
     update_appointments d uid i (no_updates\<lparr>u_status := Some ''cancelled''\<rparr>)"

section \<open>BarberDashboard.tsx\<close>

subsection \<open>updateAppointmentStatus, lines 76-100\<close>

definition updateData :: "uuid \<Rightarrow> timestamp \<Rightarrow> string \<Rightarrow> patch \<Rightarrow> patch" where
  \<comment> \<open>lines 79-86\<close>
  "updateData uid now st updates =
     (let u = spread (no_updates\<lparr>u_status := Some st\<rparr>) updates
      in if st = ''in_progress'' then u\<lparr>u_started_at := Some now, u_barber_id := Some uid\<rparr>
         else if st = ''completed'' then u\<lparr>u_completed_at := Some now\<rparr>
         else u)"

definition updateAppointmentStatus ::
  "uuid \<Rightarrow> timestamp \<Rightarrow> uuid \<Rightarrow> string \<Rightarrow> patch \<Rightarrow> db \<Rightarrow> outcome \<times> db" where
  "updateAppointmentStatus uid now i st updates d =
     (case update_appointments d uid i (updateData uid now st updates) of
        (Some e, d') \<Rightarrow> (Alerted ''Failed to update appointment'', d')
      | (None, d') \<Rightarrow> (Finished, d'))"

definition startService :: "uuid \<Rightarrow> timestamp \<Rightarrow> uuid \<Rightarrow> db \<Rightarrow> outcome \<times> db" where
  \<comment> \<open>the Start Service button, line 240\<close>
  "startService uid now i d = updateAppointmentStatus uid now i ''in_progress'' no_updates d"

definition completeService :: "uuid \<Rightarrow> timestamp \<Rightarrow> uuid \<Rightarrow> db \<Rightarrow> outcome \<times> db" where
  \<comment> \<open>the Complete button, line 190\<close>
  "completeService uid now i d = updateAppointmentStatus uid now i ''completed'' no_updates d"

section \<open>createAppointment as two requests\<close>

text \<open>
  Lines 43-50 and lines 54-63 of \<^verbatim>\<open>CustomerDashboard.tsx\<close> are two awaited requests,
  and the handler keeps \<open>nextPosition\<close> in a local variable between them. A session is
  one running call of the handler; a schedule is the order in which the database serves
  the requests of several sessions. The step \<open>ReadMax k\<close> runs session \<open>k\<close> from line 39
  to line 52, the step \<open>Insert k\<close> runs its lines 54-63. A session whose guard of line 39
  returned, or that has not read yet, has no insert to make.
\<close>

record session =
  se_uid :: uuid
  se_new_id :: uuid
  se_db_now :: timestamp
  se_selectedShop :: "shop option"
  se_serviceType :: string
  se_notes :: string
  se_nextPosition :: "int option"

datatype step = ReadMax nat | Insert nat

fun exec_step :: "step \<Rightarrow> db \<times> session list \<Rightarrow> db \<times> session list" where
  "exec_step (ReadMax k) (d, ss) =
     (if k < length ss
      then (case se_selectedShop (ss ! k) of
              None \<Rightarrow> (d, ss)
            | Some sh \<Rightarrow>
                if se_serviceType (ss ! k) = [] then (d, ss)
                else (d, ss[k := (ss ! k)\<lparr>se_nextPosition :=
                        Some (nextPosition (queueData d (se_uid (ss ! k)) (s_id sh)))\<rparr>]))
      else (d, ss))"
| "exec_step (Insert k) (d, ss) =
     (if k < length ss
      then (case (se_selectedShop (ss ! k), se_nextPosition (ss ! k)) of
              (Some sh, Some pos) \<Rightarrow>
                (snd (insert_appointment d (se_uid (ss ! k))
                        (new_row (se_new_id (ss ! k)) (se_db_now (ss ! k)) (s_id sh)
                           (se_uid (ss ! k)) (se_serviceType (ss ! k)) (se_notes (ss ! k)) pos)),
                 ss)
            | _ \<Rightarrow> (d, ss))
      else (d, ss))"

definition run_schedule :: "step list \<Rightarrow> db \<times> session list \<Rightarrow> db \<times> session list" where
  "run_schedule steps w = fold exec_step steps w"

definition waiting_positions :: "uuid \<Rightarrow> db \<Rightarrow> int list" where
  \<comment> \<open>the queue positions of the waiting appointments of a shop, all customers'\<close>
  "waiting_positions sid d =
     map queue_position
       (filter (\<lambda>a. shop_id a = sid \<and> status a = ''waiting'') (appointments d))"

section \<open>Example data\<close>

text \<open>
  One shop, two customers and the shop's barber; \<open>queue_of rows\<close> is that database with
  the given appointments, \<open>booking\<close> a haircut at the shop, \<open>tab\<close> a session about to
  book one.
\<close>

definition main_street :: shop where
  "main_street = \<lparr>s_id = ''s1'', s_name = ''Main Street''\<rparr>"

definition queue_of :: "appointment list \<Rightarrow> db" where
  "queue_of rows =
     \<lparr>profiles = [\<lparr>p_id = ''alice'', p_role = ''customer''\<rparr>,
                  \<lparr>p_id = ''bob'', p_role = ''customer''\<rparr>,
                  \<lparr>p_id = ''carl'', p_role = ''barber''\<rparr>],
      shops = [main_street],
      shop_barbers = [\<lparr>sb_shop_id = ''s1'', sb_barber_id = ''carl''\<rparr>],
      appointments = rows\<rparr>"

definition booking :: "uuid \<Rightarrow> uuid \<Rightarrow> string \<Rightarrow> int \<Rightarrow> appointment" where
  "booking i uid st pos =
     \<lparr>a_id = i, shop_id = ''s1'', customer_id = uid, barber_id = None, status = st,
      queue_position = pos, service_type = ''haircut'', notes_text = None,
      created_at = ''t0'', started_at = None, completed_at = None, updated_at = ''t0''\<rparr>"

definition tab :: "uuid \<Rightarrow> uuid \<Rightarrow> session" where
  "tab uid new_id =
     \<lparr>se_uid = uid, se_new_id = new_id, se_db_now = ''t0'', se_selectedShop = Some main_street,
      se_serviceType = ''haircut'', se_notes = [], se_nextPosition = None\<rparr>"

section \<open>Unfolding the model\<close>

lemmas policy_defs = in_shop_barbers_def has_role_def customers_can_view_own_appointments_def
  customers_can_create_appointments_def customers_can_cancel_using_def
  customers_can_cancel_check_def barbers_can_update_def update_using_def update_check_def

lemmas constraint_defs = status_check_def int4_ok_def shop_exists_def profile_exists_def
  id_taken_def patch_check_ok_def patch_range_ok_def patch_fk_ok_def patch_pk_ok_def

lemmas patch_defs = no_updates_def keep_def keep_null_def spread_def set_columns_def

lemmas statement_defs = insert_appointment_def update_appointments_def targeted_def

lemmas handler_defs = order_desc_def maybeSingle_def queueData_def nextPosition_def new_row_def
  createAppointment_def cancelAppointment_def updateData_def updateAppointmentStatus_def
  startService_def completeService_def

lemmas example_defs = main_street_def queue_of_def booking_def tab_def

lemmas model_defs = handler_defs statement_defs patch_defs policy_defs constraint_defs
  example_defs

section \<open>What the requests compute\<close>

subsection \<open>The row read by createAppointment\<close>

lemma sorted_le_last: "sorted xs \<Longrightarrow> x \<in> set xs \<Longrightarrow> x \<le> last (xs::int list)"
  by (induction xs) auto

lemma last_sort_Max:
  assumes "ns \<noteq> []"
  shows "last (sort ns) = Max (set (ns::int list))"
proof -
  have ne: "sort ns \<noteq> []" using assms by (cases ns) (auto simp: insort_is_Cons)
  have a: "last (sort ns) \<in> set ns" using last_in_set[OF ne] by simp
  have b: "\<And>x. x \<in> set ns \<Longrightarrow> x \<le> last (sort ns)"
    using sorted_le_last[of "sort ns"] by simp
  have "Max (set ns) = last (sort ns)" by (rule Max_eqI) (use a b in auto)
  then show ?thesis by simp
qed

lemma top_of_order_desc:
  "maybeSingle (take 1 (order_desc ns)) = (if ns = [] then None else Some (Max (set ns)))"
proof (cases "ns = []")
  case True
  then show ?thesis by (simp add: maybeSingle_def order_desc_def)
next
  case False
  then have ne: "sort ns \<noteq> []" by (cases ns) (auto simp: insort_is_Cons)
  then obtain x xs where r: "rev (sort ns) = x # xs" by (cases "rev (sort ns)") auto
  then have "x = last (sort ns)" using ne by (metis hd_rev list.sel(1))
  then show ?thesis using False r by (simp add: maybeSingle_def order_desc_def last_sort_Max)
qed

lemma queueData_Max:
  "queueData d uid sid =
     (if filter (\<lambda>a. customers_can_view_own_appointments d uid a \<and>
                      shop_id a = sid \<and> status a = ''waiting'') (appointments d) = []
      then None
      else Some (Max (queue_position ` {a \<in> set (appointments d).
              customers_can_view_own_appointments d uid a \<and>
              shop_id a = sid \<and> status a = ''waiting''})))"
  unfolding queueData_def top_of_order_desc by simp

lemma nextPosition_above:
  assumes "a \<in> set (appointments d)" and "customers_can_view_own_appointments d uid a"
    and "shop_id a = sid" and "status a = ''waiting''"
  shows "queue_position a < nextPosition (queueData d uid sid)"
proof -
  let ?S = "{a \<in> set (appointments d).
              customers_can_view_own_appointments d uid a \<and> shop_id a = sid \<and>
              status a = ''waiting''}"
  have m: "a \<in> ?S" using assms by simp
  then have ne: "filter (\<lambda>a. customers_can_view_own_appointments d uid a \<and>
                      shop_id a = sid \<and> status a = ''waiting'') (appointments d) \<noteq> []"
    by (auto simp: filter_empty_conv)
  have "queue_position a \<le> Max (queue_position ` ?S)"
    using m by (intro Max_ge) auto
  then show ?thesis using ne by (simp add: queueData_Max nextPosition_def)
qed

lemma createAppointment_cases:
  "createAppointment uid new_id t sel st nt d = (oc, d') \<Longrightarrow>
   (oc \<noteq> Finished \<and> d' = d) \<or>
   (oc = Finished \<and> st \<noteq> [] \<and>
    (\<exists>sh. sel = Some sh \<and>
       d' = d\<lparr>appointments := appointments d @
              [new_row new_id t (s_id sh) uid st nt (nextPosition (queueData d uid (s_id sh)))]\<rparr>))"
  by (auto simp: createAppointment_def insert_appointment_def split: option.splits if_splits)

lemma createAppointment_as_schedule:
  "fst (run_schedule [ReadMax 0, Insert 0]
          (d, [\<lparr>se_uid = uid, se_new_id = new_id, se_db_now = t, se_selectedShop = sel,
                se_serviceType = serviceType, se_notes = notes_in, se_nextPosition = None\<rparr>]))
   = snd (createAppointment uid new_id t sel serviceType notes_in d)"
  by (simp add: run_schedule_def createAppointment_def split: prod.splits option.splits)

subsection \<open>The rows an update reaches\<close>

lemma targeted_iff:
  "targeted d uid i a \<longleftrightarrow>
     a_id a = i \<and> (customer_id a = uid \<or> in_shop_barbers d (shop_id a) uid)"
  by (auto simp: targeted_def policy_defs)

lemma targeted_owner: "a_id a = i \<Longrightarrow> customer_id a = uid \<Longrightarrow> targeted d uid i a"
  by (simp add: targeted_iff)

lemma targeted_barber:
  "a_id a = i \<Longrightarrow> in_shop_barbers d (shop_id a) uid \<Longrightarrow> targeted d uid i a"
  by (simp add: targeted_iff)

lemma mapped_hit:
  "a \<in> set xs \<Longrightarrow> targeted d uid i a \<Longrightarrow>
   f a \<in> set (map (\<lambda>b. if targeted d uid i b then f b else b) xs)"
  by (induction xs) auto

lemma mapped_miss:
  "a \<in> set xs \<Longrightarrow> \<not> targeted d uid i a \<Longrightarrow>
   a \<in> set (map (\<lambda>b. if targeted d uid i b then f b else b) xs)"
  by (induction xs) auto

lemma filter_hit:
  "a \<in> set xs \<Longrightarrow> targeted d uid i a \<Longrightarrow> filter (targeted d uid i) xs \<noteq> []"
  by (auto simp: filter_empty_conv)

lemma map_untargeted:
  "filter P xs = [] \<Longrightarrow> map (\<lambda>a. if P a then f a else a) xs = xs"
  by (induction xs) (auto split: if_splits)

lemma same_id_same_row:
  assumes "distinct (map a_id xs)" and "a \<in> set xs" and "b \<in> set xs" and "a_id b = a_id a"
  shows "b = a"
proof -
  have "inj_on a_id (set xs)" using assms(1) by (simp add: distinct_map)
  then show ?thesis using assms(4,3,2) by (rule inj_onD)
qed

lemma targeted_only_row:
  assumes "distinct (map a_id (appointments d))" and "a \<in> set (appointments d)"
    and "a_id a = i" and "b \<in> set (appointments d)"
  shows "targeted d uid i b \<longleftrightarrow> a_id b = i \<and> targeted d uid i a"
proof (cases "a_id b = i")
  case True
  then have "b = a" using same_id_same_row[OF assms(1,2,4)] assms(3) by simp
  then show ?thesis using True by simp
next
  case False
  then show ?thesis by (simp add: targeted_def)
qed

lemma map_by_id:
  assumes "distinct (map a_id (appointments d))" and "a \<in> set (appointments d)"
    and "a_id a = i" and "targeted d uid i a"
  shows "map (\<lambda>b. if targeted d uid i b then f b else b) (appointments d) =
         map (\<lambda>b. if a_id b = i then f b else b) (appointments d)"
proof (rule map_cong[OF refl])
  fix b assume "b \<in> set (appointments d)"
  then have "targeted d uid i b \<longleftrightarrow> a_id b = i"
    using targeted_only_row[OF assms(1,2,3)] assms(4) by simp
  then show "(if targeted d uid i b then f b else b) = (if a_id b = i then f b else b)"
    by simp
qed

lemma all_targeted_barber:
  assumes "distinct (map a_id (appointments d))" and "a \<in> set (appointments d)"
    and "a_id a = i"
  shows "list_all (\<lambda>b. in_shop_barbers d (shop_id b) uid)
           (filter (targeted d uid i) (appointments d))
         \<longleftrightarrow> (targeted d uid i a \<longrightarrow> in_shop_barbers d (shop_id a) uid)"
proof -
  have only: "\<And>b. b \<in> set (appointments d) \<Longrightarrow> targeted d uid i b \<Longrightarrow> b = a"
  proof -
    fix b assume m: "b \<in> set (appointments d)" and t: "targeted d uid i b"
    have "a_id b = a_id a" using t assms(3) by (simp add: targeted_def)
    then show "b = a" by (rule same_id_same_row[OF assms(1,2) m])
  qed
  show ?thesis
  proof
    assume l: "list_all (\<lambda>b. in_shop_barbers d (shop_id b) uid)
                 (filter (targeted d uid i) (appointments d))"
    show "targeted d uid i a \<longrightarrow> in_shop_barbers d (shop_id a) uid"
      using l assms(2) by (simp add: list_all_iff)
  next
    assume r: "targeted d uid i a \<longrightarrow> in_shop_barbers d (shop_id a) uid"
    show "list_all (\<lambda>b. in_shop_barbers d (shop_id b) uid)
            (filter (targeted d uid i) (appointments d))"
      unfolding list_all_iff
    proof
      fix b assume "b \<in> set (filter (targeted d uid i) (appointments d))"
      then have m: "b \<in> set (appointments d)" and t: "targeted d uid i b" by simp_all
      have "b = a" by (rule only[OF m t])
      then show "in_shop_barbers d (shop_id b) uid" using r t by simp
    qed
  qed
qed

subsection \<open>cancelAppointment\<close>

lemma set_status_only:
  "set_columns (no_updates\<lparr>u_status := Some s\<rparr>) a = a\<lparr>status := s\<rparr>"
  by (simp add: patch_defs)

lemma update_check_after_cancel:
  "update_using d uid a \<Longrightarrow> update_check d uid (a\<lparr>status := ''cancelled''\<rparr>)"
  by (auto simp: policy_defs)

lemma cancelAppointment_result:
  "cancelAppointment uid i d =
     (None, d\<lparr>appointments :=
        map (\<lambda>a. if targeted d uid i a then a\<lparr>status := ''cancelled''\<rparr> else a)
          (appointments d)\<rparr>)"
proof (cases "filter (targeted d uid i) (appointments d) = []")
  case True
  then show ?thesis
    by (simp add: cancelAppointment_def update_appointments_def map_untargeted)
next
  case False
  have chk: "list_all (update_check d uid)
      (map (set_columns (no_updates\<lparr>u_status := Some ''cancelled''\<rparr>))
         (filter (targeted d uid i) (appointments d)))"
    by (auto simp: list_all_iff set_status_only targeted_def intro: update_check_after_cancel)
  have ok: "patch_range_ok (no_updates\<lparr>u_status := Some ''cancelled''\<rparr>)"
    "patch_check_ok (no_updates\<lparr>u_status := Some ''cancelled''\<rparr>)"
    "patch_fk_ok d (no_updates\<lparr>u_status := Some ''cancelled''\<rparr>)"
    "\<And>rows. patch_pk_ok (no_updates\<lparr>u_status := Some ''cancelled''\<rparr>) rows"
    by (simp_all add: constraint_defs no_updates_def)
  show ?thesis
    using False chk ok
    by (simp add: cancelAppointment_def update_appointments_def Let_def set_status_only)
qed

subsection \<open>startService and completeService\<close>

lemma start_columns:
  "set_columns (updateData uid now ''in_progress'' no_updates) a =
     a\<lparr>status := ''in_progress'', started_at := Some now, barber_id := Some uid\<rparr>"
  by (simp add: updateData_def patch_defs)

lemma complete_columns:
  "set_columns (updateData uid now ''completed'' no_updates) a =
     a\<lparr>status := ''completed'', completed_at := Some now\<rparr>"
  by (simp add: updateData_def patch_defs)

lemma start_patch_ok:
  "patch_range_ok (updateData uid now ''in_progress'' no_updates)"
  "patch_check_ok (updateData uid now ''in_progress'' no_updates)"
  "patch_pk_ok (updateData uid now ''in_progress'' no_updates) rows"
  "patch_fk_ok d (updateData uid now ''in_progress'' no_updates) = profile_exists d uid"
  by (simp_all add: updateData_def patch_defs constraint_defs)

lemma complete_patch_ok:
  "patch_range_ok (updateData uid now ''completed'' no_updates)"
  "patch_check_ok (updateData uid now ''completed'' no_updates)"
  "patch_pk_ok (updateData uid now ''completed'' no_updates) rows"
  "patch_fk_ok d (updateData uid now ''completed'' no_updates)"
  by (simp_all add: updateData_def patch_defs constraint_defs)

lemma check_not_cancelled:
  "status a \<noteq> ''cancelled'' \<Longrightarrow> update_check d uid a = in_shop_barbers d (shop_id a) uid"
  by (simp add: policy_defs)

lemma startService_result:
  "startService uid now i d =
     (if filter (targeted d uid i) (appointments d) = [] then (Finished, d)
      else if \<not> list_all (\<lambda>a. in_shop_barbers d (shop_id a) uid)
                  (filter (targeted d uid i) (appointments d))
           \<or> \<not> profile_exists d uid
        then (Alerted ''Failed to update appointment'', d)
      else (Finished, d\<lparr>appointments :=
              map (\<lambda>a. if targeted d uid i a
                        then a\<lparr>status := ''in_progress'', started_at := Some now,
                               barber_id := Some uid\<rparr>
                        else a) (appointments d)\<rparr>))"
proof -
  have chk: "list_all (update_check d uid)
      (map (set_columns (updateData uid now ''in_progress'' no_updates))
         (filter (targeted d uid i) (appointments d)))
    = list_all (\<lambda>a. in_shop_barbers d (shop_id a) uid)
         (filter (targeted d uid i) (appointments d))"
    by (simp add: list_all_iff start_columns check_not_cancelled)
  show ?thesis
    unfolding startService_def updateAppointmentStatus_def update_appointments_def Let_def
    by (simp add: chk start_patch_ok start_columns)
qed

lemma completeService_result:
  "completeService uid now i d =
     (if filter (targeted d uid i) (appointments d) = [] then (Finished, d)
      else if \<not> list_all (\<lambda>a. in_shop_barbers d (shop_id a) uid)
                  (filter (targeted d uid i) (appointments d))
        then (Alerted ''Failed to update appointment'', d)
      else (Finished, d\<lparr>appointments :=
              map (\<lambda>a. if targeted d uid i a
                        then a\<lparr>status := ''completed'', completed_at := Some now\<rparr>
                        else a) (appointments d)\<rparr>))"
proof -
  have chk: "list_all (update_check d uid)
      (map (set_columns (updateData uid now ''completed'' no_updates))
         (filter (targeted d uid i) (appointments d)))
    = list_all (\<lambda>a. in_shop_barbers d (shop_id a) uid)
         (filter (targeted d uid i) (appointments d))"
    by (simp add: list_all_iff complete_columns check_not_cancelled)
  show ?thesis
    unfolding completeService_def updateAppointmentStatus_def update_appointments_def Let_def
    by (simp add: chk complete_patch_ok complete_columns)
qed

lemma startService_Finished:
  "filter (targeted d uid i) (appointments d) \<noteq> [] \<Longrightarrow>
   fst (startService uid now i d) = Finished \<Longrightarrow>
   appointments (snd (startService uid now i d)) =
     map (\<lambda>a. if targeted d uid i a
               then a\<lparr>status := ''in_progress'', started_at := Some now, barber_id := Some uid\<rparr>
               else a) (appointments d)"
  by (simp add: startService_result split: if_splits)

lemma completeService_Finished:
  "filter (targeted d uid i) (appointments d) \<noteq> [] \<Longrightarrow>
   fst (completeService uid now i d) = Finished \<Longrightarrow>
   appointments (snd (completeService uid now i d)) =
     map (\<lambda>a. if targeted d uid i a
               then a\<lparr>status := ''completed'', completed_at := Some now\<rparr>
               else a) (appointments d)"
  by (simp add: completeService_result split: if_splits)

lemma untargeted_kept:
  assumes "a \<in> set (appointments d)" and "\<not> targeted d uid i a"
  shows "a \<in> set (appointments (snd (cancelAppointment uid i d)))"
    and "a \<in> set (appointments (snd (startService uid now i d)))"
    and "a \<in> set (appointments (snd (completeService uid now i d)))"
proof -
  note k = mapped_miss[OF assms]
  show "a \<in> set (appointments (snd (cancelAppointment uid i d)))"
    using k[of "\<lambda>a. a\<lparr>status := ''cancelled''\<rparr>"] by (simp add: cancelAppointment_result)
  show "a \<in> set (appointments (snd (startService uid now i d)))"
    using k[of "\<lambda>a. a\<lparr>status := ''in_progress'', started_at := Some now,
                      barber_id := Some uid\<rparr>"] assms(1)
    by (simp add: startService_result)
  show "a \<in> set (appointments (snd (completeService uid now i d)))"
    using k[of "\<lambda>a. a\<lparr>status := ''completed'', completed_at := Some now\<rparr>"] assms(1)
    by (simp add: completeService_result)
qed

section \<open>The claims\<close>

subsection \<open>C1: the position given to a new appointment\<close>

text \<open>
  C1. The spec: the new appointment's \<open>queue_position\<close> is one greater than the maximum
  \<open>queue_position\<close> among the shop's waiting appointments at the time of the read, and 1
  when there is none. The handler asks for exactly that row, but the request runs as the
  customer, and the SELECT policy shows a customer only their own appointments. Here
  alice waits at Main Street with position 1; bob's read finds no row, and bob's new
  appointment gets position 1 instead of 2.
\<close>

theorem createAppointment_misses_other_customers:
  "waiting_positions ''s1'' (queue_of [booking ''a1'' ''alice'' ''waiting'' 1]) = [1] \<and>
   queueData (queue_of [booking ''a1'' ''alice'' ''waiting'' 1]) ''bob'' ''s1'' = None \<and>
   createAppointment ''bob'' ''a2'' ''t0'' (Some main_street) ''haircut'' []
       (queue_of [booking ''a1'' ''alice'' ''waiting'' 1])
     = (Finished, queue_of [booking ''a1'' ''alice'' ''waiting'' 1,
                            booking ''a2'' ''bob'' ''waiting'' 1])"
  by (simp add: waiting_positions_def model_defs)

subsection \<open>C2: appointments in a terminal state\<close>

text \<open>
  C2, as the spec states it: a transition applied to a completed or cancelled
  appointment fails with an invalid-state error and leaves the record unchanged. It does
  not hold: alice cancels her completed appointment, no error is reported and the stored
  status becomes cancelled.
\<close>

theorem cancel_completed_counterexample:
  "status (booking ''a1'' ''alice'' ''completed'' 1) = ''completed'' \<and>
   cancelAppointment ''alice'' ''a1'' (queue_of [booking ''a1'' ''alice'' ''completed'' 1])
     = (None, queue_of [booking ''a1'' ''alice'' ''cancelled'' 1]) \<and>
   booking ''a1'' ''alice'' ''cancelled'' 1 \<noteq> booking ''a1'' ''alice'' ''completed'' 1"
  by (simp add: model_defs)

text \<open>
  C2, amended. No operation looks at the current status. For an appointment that is
  completed or cancelled: cancelAppointment by its customer reports no error and stores
  status cancelled; startService and completeService by a barber of its shop, when they
  finish without the alert, store in\_progress with \<open>started_at\<close> and \<open>barber_id\<close>, and
  completed with \<open>completed_at\<close>. The record is left as it is when the acting user is
  neither its customer nor a barber of its shop.
\<close>

theorem terminal_rows_are_overwritten:
  assumes "a \<in> set (appointments d)" and "a_id a = i"
    and "status a = ''completed'' \<or> status a = ''cancelled''"
  shows "(customer_id a = uid \<longrightarrow>
            fst (cancelAppointment uid i d) = None \<and>
            a\<lparr>status := ''cancelled''\<rparr> \<in> set (appointments (snd (cancelAppointment uid i d)))) \<and>
         (in_shop_barbers d (shop_id a) uid \<and> fst (startService uid now i d) = Finished \<longrightarrow>
            a\<lparr>status := ''in_progress'', started_at := Some now, barber_id := Some uid\<rparr>
              \<in> set (appointments (snd (startService uid now i d)))) \<and>
         (in_shop_barbers d (shop_id a) uid \<and> fst (completeService uid now i d) = Finished \<longrightarrow>
            a\<lparr>status := ''completed'', completed_at := Some now\<rparr>
              \<in> set (appointments (snd (completeService uid now i d)))) \<and>
         (customer_id a \<noteq> uid \<and> \<not> in_shop_barbers d (shop_id a) uid \<longrightarrow>
            a \<in> set (appointments (snd (cancelAppointment uid i d))) \<and>
            a \<in> set (appointments (snd (startService uid now i d))) \<and>
            a \<in> set (appointments (snd (completeService uid now i d))))"
proof (intro conjI impI)
  assume "customer_id a = uid"
  then have t: "targeted d uid i a" using assms(2) by (simp add: targeted_owner)
  show "fst (cancelAppointment uid i d) = None" by (simp add: cancelAppointment_result)
  show "a\<lparr>status := ''cancelled''\<rparr> \<in> set (appointments (snd (cancelAppointment uid i d)))"
    using mapped_hit[OF assms(1) t, of "\<lambda>a. a\<lparr>status := ''cancelled''\<rparr>"]
    by (simp add: cancelAppointment_result)
next
  assume h: "in_shop_barbers d (shop_id a) uid \<and> fst (startService uid now i d) = Finished"
  then have t: "targeted d uid i a" using assms(2) by (simp add: targeted_barber)
  have ne: "filter (targeted d uid i) (appointments d) \<noteq> []"
    by (rule filter_hit[OF assms(1) t])
  show "a\<lparr>status := ''in_progress'', started_at := Some now, barber_id := Some uid\<rparr>
          \<in> set (appointments (snd (startService uid now i d)))"
    unfolding startService_Finished[OF ne conjunct2[OF h]]
    by (rule mapped_hit[OF assms(1) t])
next
  assume h: "in_shop_barbers d (shop_id a) uid \<and> fst (completeService uid now i d) = Finished"
  then have t: "targeted d uid i a" using assms(2) by (simp add: targeted_barber)
  have ne: "filter (targeted d uid i) (appointments d) \<noteq> []"
    by (rule filter_hit[OF assms(1) t])
  show "a\<lparr>status := ''completed'', completed_at := Some now\<rparr>
          \<in> set (appointments (snd (completeService uid now i d)))"
    unfolding completeService_Finished[OF ne conjunct2[OF h]]
    by (rule mapped_hit[OF assms(1) t])
next
  assume h: "customer_id a \<noteq> uid \<and> \<not> in_shop_barbers d (shop_id a) uid"
  then have t: "\<not> targeted d uid i a" by (simp add: targeted_iff)
  show "a \<in> set (appointments (snd (cancelAppointment uid i d)))"
    by (rule untargeted_kept[OF assms(1) t])
  show "a \<in> set (appointments (snd (startService uid now i d)))"
    by (rule untargeted_kept[OF assms(1) t])
  show "a \<in> set (appointments (snd (completeService uid now i d)))"
    by (rule untargeted_kept[OF assms(1) t])
qed

text \<open>
  The amended C2 on alice's completed appointment: alice cancels it, carl (the shop's
  barber) starts it again or completes it again, bob (another customer) cannot touch it.
\<close>

theorem terminal_rows_are_overwritten_witness:
  "booking ''a1'' ''alice'' ''completed'' 1
     \<in> set (appointments (queue_of [booking ''a1'' ''alice'' ''completed'' 1])) \<and>
   status (booking ''a1'' ''alice'' ''completed'' 1) = ''completed'' \<and>
   fst (cancelAppointment ''alice'' ''a1'' (queue_of [booking ''a1'' ''alice'' ''completed'' 1]))
     = None \<and>
   (booking ''a1'' ''alice'' ''completed'' 1)\<lparr>status := ''cancelled''\<rparr>
     \<in> set (appointments (snd (cancelAppointment ''alice'' ''a1''
                (queue_of [booking ''a1'' ''alice'' ''completed'' 1])))) \<and>
   fst (startService ''carl'' ''t1'' ''a1'' (queue_of [booking ''a1'' ''alice'' ''completed'' 1]))
     = Finished \<and>
   (booking ''a1'' ''alice'' ''completed'' 1)
       \<lparr>status := ''in_progress'', started_at := Some ''t1'', barber_id := Some ''carl''\<rparr>
     \<in> set (appointments (snd (startService ''carl'' ''t1'' ''a1''
                (queue_of [booking ''a1'' ''alice'' ''completed'' 1])))) \<and>
   fst (completeService ''carl'' ''t1'' ''a1'' (queue_of [booking ''a1'' ''alice'' ''completed'' 1]))
     = Finished \<and>
   (booking ''a1'' ''alice'' ''completed'' 1)\<lparr>status := ''completed'', completed_at := Some ''t1''\<rparr>
     \<in> set (appointments (snd (completeService ''carl'' ''t1'' ''a1''
                (queue_of [booking ''a1'' ''alice'' ''completed'' 1])))) \<and>
   booking ''a1'' ''alice'' ''completed'' 1
     \<in> set (appointments (snd (cancelAppointment ''bob'' ''a1''
                (queue_of [booking ''a1'' ''alice'' ''completed'' 1]))))"
proof -
  let ?a = "booking ''a1'' ''alice'' ''completed'' 1"
  let ?d = "queue_of [?a]"
  have m: "?a \<in> set (appointments ?d)" by (simp add: queue_of_def)
  have i: "a_id ?a = ''a1''" by (simp add: booking_def)
  have s: "status ?a = ''completed'' \<or> status ?a = ''cancelled''" by (simp add: booking_def)
  have own: "customer_id ?a = ''alice''" by (simp add: booking_def)
  have bar: "in_shop_barbers ?d (shop_id ?a) ''carl''"
    by (simp add: in_shop_barbers_def queue_of_def booking_def)
  have fin: "fst (startService ''carl'' ''t1'' ''a1'' ?d) = Finished"
    by (simp add: model_defs)
  have out: "customer_id ?a \<noteq> ''bob'' \<and> \<not> in_shop_barbers ?d (shop_id ?a) ''bob''"
    by (simp add: in_shop_barbers_def queue_of_def booking_def)
  have st: "status ?a = ''completed''" by (simp add: booking_def)
  have c1: "fst (cancelAppointment ''alice'' ''a1'' ?d) = None \<and>
      ?a\<lparr>status := ''cancelled''\<rparr> \<in> set (appointments (snd (cancelAppointment ''alice'' ''a1'' ?d)))"
    using terminal_rows_are_overwritten[OF m i s, of "''alice''" "''t1''"] own by blast
  have c2: "?a\<lparr>status := ''in_progress'', started_at := Some ''t1'', barber_id := Some ''carl''\<rparr>
      \<in> set (appointments (snd (startService ''carl'' ''t1'' ''a1'' ?d)))"
    using terminal_rows_are_overwritten[OF m i s, of "''carl''" "''t1''"] bar fin by blast
  have fin2: "fst (completeService ''carl'' ''t1'' ''a1'' ?d) = Finished"
    by (simp add: model_defs)
  have c4: "?a\<lparr>status := ''completed'', completed_at := Some ''t1''\<rparr>
      \<in> set (appointments (snd (completeService ''carl'' ''t1'' ''a1'' ?d)))"
    using terminal_rows_are_overwritten[OF m i s, of "''carl''" "''t1''"] bar fin2 by blast
  have c3: "?a \<in> set (appointments (snd (cancelAppointment ''bob'' ''a1'' ?d)))"
    using terminal_rows_are_overwritten[OF m i s, of "''bob''" "''t1''"] out by blast
  show ?thesis
    using m st c1 fin c2 fin2 c4 c3 by blast
qed

subsection \<open>C3: what startService and completeService are conditional on\<close>

text \<open>
  C3, as the spec states it: startService succeeds only on a waiting appointment,
  completeService only on one in progress, and the update is a failing no-op otherwise.
  It does not hold: carl starts alice's completed appointment, the handler finishes
  without the alert and the stored status becomes in\_progress.
\<close>

theorem start_completed_counterexample:
  "status (booking ''a1'' ''alice'' ''completed'' 1) = ''completed'' \<and>
   startService ''carl'' ''t1'' ''a1'' (queue_of [booking ''a1'' ''alice'' ''completed'' 1])
     = (Finished, queue_of [(booking ''a1'' ''alice'' ''in_progress'' 1)
                              \<lparr>barber_id := Some ''carl'', started_at := Some ''t1''\<rparr>])"
  by (simp add: model_defs)

text \<open>
  C3, amended. The update is conditional on the row's id and on the row-level policies,
  never on the row's current status. With unique ids, for the appointment \<open>a\<close> with id
  \<open>i\<close>, whatever its status: a barber of its shop (with a profile) starts it, and a barber
  of its shop completes it; for a user who is neither its customer nor a barber of its
  shop the update reaches no row and the handler finishes with nothing changed; for its
  customer, not a barber of the shop, the new row fails the policy check and the handler
  alerts with nothing changed.
\<close>

theorem service_updates_ignore_status:
  assumes "distinct (map a_id (appointments d))" and "a \<in> set (appointments d)"
    and "a_id a = i"
  shows "(in_shop_barbers d (shop_id a) uid \<and> profile_exists d uid \<longrightarrow>
            startService uid now i d =
              (Finished, d\<lparr>appointments :=
                 map (\<lambda>b. if a_id b = i
                           then b\<lparr>status := ''in_progress'', started_at := Some now,
                                  barber_id := Some uid\<rparr>
                           else b) (appointments d)\<rparr>)) \<and>
         (in_shop_barbers d (shop_id a) uid \<longrightarrow>
            completeService uid now i d =
              (Finished, d\<lparr>appointments :=
                 map (\<lambda>b. if a_id b = i
                           then b\<lparr>status := ''completed'', completed_at := Some now\<rparr>
                           else b) (appointments d)\<rparr>)) \<and>
         (customer_id a \<noteq> uid \<and> \<not> in_shop_barbers d (shop_id a) uid \<longrightarrow>
            startService uid now i d = (Finished, d) \<and>
            completeService uid now i d = (Finished, d)) \<and>
         (customer_id a = uid \<and> \<not> in_shop_barbers d (shop_id a) uid \<longrightarrow>
            startService uid now i d = (Alerted ''Failed to update appointment'', d) \<and>
            completeService uid now i d = (Alerted ''Failed to update appointment'', d))"
proof (intro conjI impI)
  assume h: "in_shop_barbers d (shop_id a) uid \<and> profile_exists d uid"
  then have t: "targeted d uid i a" using assms(3) by (simp add: targeted_barber)
  have ne: "filter (targeted d uid i) (appointments d) \<noteq> []"
    by (rule filter_hit[OF assms(2) t])
  have al: "list_all (\<lambda>b. in_shop_barbers d (shop_id b) uid)
              (filter (targeted d uid i) (appointments d))"
    using h by (simp add: all_targeted_barber[OF assms])
  show "startService uid now i d =
              (Finished, d\<lparr>appointments :=
                 map (\<lambda>b. if a_id b = i
                           then b\<lparr>status := ''in_progress'', started_at := Some now,
                                  barber_id := Some uid\<rparr>
                           else b) (appointments d)\<rparr>)"
    using ne al h by (simp add: startService_result map_by_id[OF assms t])
next
  assume h: "in_shop_barbers d (shop_id a) uid"
  then have t: "targeted d uid i a" using assms(3) by (simp add: targeted_barber)
  have ne: "filter (targeted d uid i) (appointments d) \<noteq> []"
    by (rule filter_hit[OF assms(2) t])
  have al: "list_all (\<lambda>b. in_shop_barbers d (shop_id b) uid)
              (filter (targeted d uid i) (appointments d))"
    using h by (simp add: all_targeted_barber[OF assms])
  show "completeService uid now i d =
              (Finished, d\<lparr>appointments :=
                 map (\<lambda>b. if a_id b = i
                           then b\<lparr>status := ''completed'', completed_at := Some now\<rparr>
                           else b) (appointments d)\<rparr>)"
    using ne al by (simp add: completeService_result map_by_id[OF assms t])
next
  assume h: "customer_id a \<noteq> uid \<and> \<not> in_shop_barbers d (shop_id a) uid"
  then have t: "\<not> targeted d uid i a" by (simp add: targeted_iff)
  have e: "filter (targeted d uid i) (appointments d) = []"
    using targeted_only_row[OF assms] t by (simp add: filter_empty_conv)
  show "startService uid now i d = (Finished, d)" by (simp add: startService_result e)
  show "completeService uid now i d = (Finished, d)" by (simp add: completeService_result e)
next
  assume h: "customer_id a = uid \<and> \<not> in_shop_barbers d (shop_id a) uid"
  then have t: "targeted d uid i a" using assms(3) by (simp add: targeted_owner)
  have ne: "filter (targeted d uid i) (appointments d) \<noteq> []"
    by (rule filter_hit[OF assms(2) t])
  have al: "\<not> list_all (\<lambda>b. in_shop_barbers d (shop_id b) uid)
              (filter (targeted d uid i) (appointments d))"
    using h t by (simp add: all_targeted_barber[OF assms])
  show "startService uid now i d = (Alerted ''Failed to update appointment'', d)"
    using ne al by (simp add: startService_result)
  show "completeService uid now i d = (Alerted ''Failed to update appointment'', d)"
    using ne al by (simp add: completeService_result)
qed

text \<open>
  The amended C3 on alice's cancelled appointment: carl completes it, bob's attempt is a
  silent no-op, alice's own attempt alerts.
\<close>

theorem service_updates_ignore_status_witness:
  "distinct (map a_id (appointments (queue_of [booking ''a1'' ''alice'' ''cancelled'' 1]))) \<and>
   status (booking ''a1'' ''alice'' ''cancelled'' 1) = ''cancelled'' \<and>
   startService ''carl'' ''t1'' ''a1'' (queue_of [booking ''a1'' ''alice'' ''cancelled'' 1])
     = (Finished, queue_of [(booking ''a1'' ''alice'' ''in_progress'' 1)
                              \<lparr>barber_id := Some ''carl'', started_at := Some ''t1''\<rparr>]) \<and>
   completeService ''carl'' ''t1'' ''a1'' (queue_of [booking ''a1'' ''alice'' ''cancelled'' 1])
     = (Finished, queue_of [(booking ''a1'' ''alice'' ''completed'' 1)
                              \<lparr>completed_at := Some ''t1''\<rparr>]) \<and>
   startService ''bob'' ''t1'' ''a1'' (queue_of [booking ''a1'' ''alice'' ''cancelled'' 1])
     = (Finished, queue_of [booking ''a1'' ''alice'' ''cancelled'' 1]) \<and>
   completeService ''alice'' ''t1'' ''a1'' (queue_of [booking ''a1'' ''alice'' ''cancelled'' 1])
     = (Alerted ''Failed to update appointment'',
        queue_of [booking ''a1'' ''alice'' ''cancelled'' 1])"
proof -
  let ?a = "booking ''a1'' ''alice'' ''cancelled'' 1"
  let ?d = "queue_of [?a]"
  have di: "distinct (map a_id (appointments ?d))" by (simp add: queue_of_def)
  have m: "?a \<in> set (appointments ?d)" by (simp add: queue_of_def)
  have i: "a_id ?a = ''a1''" by (simp add: booking_def)
  have carl: "in_shop_barbers ?d (shop_id ?a) ''carl'' \<and> profile_exists ?d ''carl''"
    by (simp add: in_shop_barbers_def profile_exists_def queue_of_def booking_def)
  have bob: "customer_id ?a \<noteq> ''bob'' \<and> \<not> in_shop_barbers ?d (shop_id ?a) ''bob''"
    by (simp add: in_shop_barbers_def queue_of_def booking_def)
  have alice: "customer_id ?a = ''alice'' \<and> \<not> in_shop_barbers ?d (shop_id ?a) ''alice''"
    by (simp add: in_shop_barbers_def queue_of_def booking_def)
  show ?thesis
    using service_updates_ignore_status[OF di m i, of "''carl''" "''t1''"]
      service_updates_ignore_status[OF di m i, of "''bob''" "''t1''"]
      service_updates_ignore_status[OF di m i, of "''alice''" "''t1''"]
      carl bob alice
    by (simp add: queue_of_def booking_def)
qed

subsection \<open>C4: positions over time\<close>

text \<open>
  C4, as the spec states it: per shop, positions increase over creation order and a
  position is never assigned twice, even after the appointment that held it is
  cancelled. It does not hold: alice books (position 1), cancels, and books again; the
  second appointment gets position 1 again.
\<close>

theorem position_reused_counterexample:
  "createAppointment ''alice'' ''a1'' ''t0'' (Some main_street) ''haircut'' [] (queue_of [])
     = (Finished, queue_of [booking ''a1'' ''alice'' ''waiting'' 1]) \<and>
   cancelAppointment ''alice'' ''a1'' (queue_of [booking ''a1'' ''alice'' ''waiting'' 1])
     = (None, queue_of [booking ''a1'' ''alice'' ''cancelled'' 1]) \<and>
   createAppointment ''alice'' ''a2'' ''t0'' (Some main_street) ''haircut'' []
       (queue_of [booking ''a1'' ''alice'' ''cancelled'' 1])
     = (Finished, queue_of [booking ''a1'' ''alice'' ''cancelled'' 1,
                            booking ''a2'' ''alice'' ''waiting'' 1])"
  by (simp add: model_defs)

text \<open>
  C4, amended. The position of a new appointment is strictly greater than the position
  of every appointment of the shop that is waiting at the time of the read and that the
  creating customer can read. Nothing is said of appointments that have left the waiting
  state: their positions can be assigned again.
\<close>

theorem new_position_above_visible_waiting:
  assumes "createAppointment uid new_id t (Some sh) st nt d = (Finished, d')"
    and "a \<in> set (appointments d)" and "shop_id a = s_id sh" and "status a = ''waiting''"
    and "customers_can_view_own_appointments d uid a"
  shows "\<exists>n. appointments d' = appointments d @ [n] \<and> shop_id n = s_id sh \<and>
              status n = ''waiting'' \<and> queue_position a < queue_position n"
proof -
  have "d' = d\<lparr>appointments := appointments d @
              [new_row new_id t (s_id sh) uid st nt (nextPosition (queueData d uid (s_id sh)))]\<rparr>"
    using createAppointment_cases[OF assms(1)] by simp
  then show ?thesis
    using nextPosition_above[OF assms(2,5,3,4)] by (simp add: new_row_def)
qed

text \<open>The amended C4 on alice's second booking while her first one waits.\<close>

theorem new_position_above_visible_waiting_witness:
  "createAppointment ''alice'' ''a2'' ''t0'' (Some main_street) ''haircut'' []
       (queue_of [booking ''a1'' ''alice'' ''waiting'' 1])
     = (Finished, queue_of [booking ''a1'' ''alice'' ''waiting'' 1,
                            booking ''a2'' ''alice'' ''waiting'' 2]) \<and>
   (\<exists>n. appointments (queue_of [booking ''a1'' ''alice'' ''waiting'' 1,
                                 booking ''a2'' ''alice'' ''waiting'' 2])
          = appointments (queue_of [booking ''a1'' ''alice'' ''waiting'' 1]) @ [n] \<and>
        shop_id n = s_id main_street \<and> status n = ''waiting'' \<and>
        queue_position (booking ''a1'' ''alice'' ''waiting'' 1) < queue_position n)"
proof -
  let ?a = "booking ''a1'' ''alice'' ''waiting'' 1"
  let ?d = "queue_of [?a]"
  let ?d' = "queue_of [?a, booking ''a2'' ''alice'' ''waiting'' 2]"
  have c: "createAppointment ''alice'' ''a2'' ''t0'' (Some main_street) ''haircut'' [] ?d
             = (Finished, ?d')"
    by (simp add: model_defs)
  have m: "?a \<in> set (appointments ?d)" by (simp add: queue_of_def)
  have sh: "shop_id ?a = s_id main_street" by (simp add: booking_def main_street_def)
  have w: "status ?a = ''waiting''" by (simp add: booking_def)
  have v: "customers_can_view_own_appointments ?d ''alice'' ?a"
    by (simp add: customers_can_view_own_appointments_def booking_def)
  show ?thesis
    using new_position_above_visible_waiting[OF c m sh w v] c by blast
qed

subsection \<open>C5: bookings served in any order\<close>

text \<open>
  C5. The spec: whatever the interleaving of the reads and inserts of concurrent
  createAppointment calls for one shop, the waiting appointments of the shop have
  pairwise distinct positions. The read and the insert are two requests, nothing ties
  them together and the table has no unique constraint on the position. Two sessions of
  alice served one after the other get positions 1 and 2; served read, read, insert,
  insert they both get position 1; so do a session of alice and a session of bob.
\<close>

theorem interleaved_creates_collide:
  "waiting_positions ''s1'' (fst (run_schedule [ReadMax 0, Insert 0, ReadMax 1, Insert 1]
      (queue_of [], [tab ''alice'' ''a1'', tab ''alice'' ''a2'']))) = [1, 2] \<and>
   waiting_positions ''s1'' (fst (run_schedule [ReadMax 0, ReadMax 1, Insert 0, Insert 1]
      (queue_of [], [tab ''alice'' ''a1'', tab ''alice'' ''a2'']))) = [1, 1] \<and>
   waiting_positions ''s1'' (fst (run_schedule [ReadMax 0, ReadMax 1, Insert 0, Insert 1]
      (queue_of [], [tab ''alice'' ''a1'', tab ''bob'' ''a2'']))) = [1, 1]"
  by (simp add: run_schedule_def waiting_positions_def model_defs)

subsection \<open>C6: who can cancel\<close>

text \<open>
  C6, as the spec states it: cancelAppointment by anyone but the appointment's customer
  returns NotOwner and leaves the record unchanged. It does not hold: bob cancels alice's
  appointment, the record is unchanged, and no error comes back; the update policy hides
  the row and the statement updates no row.
\<close>

theorem cancel_by_stranger_counterexample:
  "customer_id (booking ''a1'' ''alice'' ''waiting'' 1) \<noteq> ''bob'' \<and>
   cancelAppointment ''bob'' ''a1'' (queue_of [booking ''a1'' ''alice'' ''waiting'' 1])
     = (None, queue_of [booking ''a1'' ''alice'' ''waiting'' 1])"
  by (simp add: model_defs)

text \<open>
  C6, amended. cancelAppointment never reports an error, and it changes a stored
  appointment only when the appointment has the given id and the acting user is its
  customer or a barber of its shop. Any other user's attempt leaves every record
  unchanged.
\<close>

theorem cancel_changes_only_permitted_rows:
  "fst (cancelAppointment uid i d) = None \<and>
   length (appointments (snd (cancelAppointment uid i d))) = length (appointments d) \<and>
   (\<forall>k < length (appointments d).
      appointments (snd (cancelAppointment uid i d)) ! k \<noteq> appointments d ! k \<longrightarrow>
        a_id (appointments d ! k) = i \<and>
        (customer_id (appointments d ! k) = uid \<or>
         in_shop_barbers d (shop_id (appointments d ! k)) uid))"
  by (auto simp: cancelAppointment_result targeted_iff)

text \<open>The amended C6 on bob's and on alice's attempt to cancel alice's appointment.\<close>

theorem cancel_changes_only_permitted_rows_witness:
  "fst (cancelAppointment ''bob'' ''a1'' (queue_of [booking ''a1'' ''alice'' ''waiting'' 1]))
     = None \<and>
   appointments (snd (cancelAppointment ''bob'' ''a1''
       (queue_of [booking ''a1'' ''alice'' ''waiting'' 1]))) ! 0
     = booking ''a1'' ''alice'' ''waiting'' 1 \<and>
   appointments (snd (cancelAppointment ''alice'' ''a1''
       (queue_of [booking ''a1'' ''alice'' ''waiting'' 1]))) ! 0
     \<noteq> booking ''a1'' ''alice'' ''waiting'' 1 \<and>
   customer_id (booking ''a1'' ''alice'' ''waiting'' 1) = ''alice''"
proof -
  let ?a = "booking ''a1'' ''alice'' ''waiting'' 1"
  let ?d = "queue_of [?a]"
  have k: "0 < length (appointments ?d)" and r: "appointments ?d ! 0 = ?a"
    by (simp_all add: queue_of_def)
  have out: "customer_id ?a \<noteq> ''bob''" "\<not> in_shop_barbers ?d (shop_id ?a) ''bob''"
    by (simp_all add: in_shop_barbers_def queue_of_def booking_def)
  have b: "fst (cancelAppointment ''bob'' ''a1'' ?d) = None \<and>
           appointments (snd (cancelAppointment ''bob'' ''a1'' ?d)) ! 0 = ?a"
    using cancel_changes_only_permitted_rows[of "''bob''" "''a1''" ?d] k r out by metis
  have ch: "appointments (snd (cancelAppointment ''alice'' ''a1'' ?d)) ! 0 \<noteq> ?a"
    by (simp add: model_defs)
  have own: "customer_id ?a = ''alice''" by (simp add: booking_def)
  show ?thesis using b ch own by blast
qed

subsection \<open>C7: admission\<close>

text \<open>
  C7, as the spec states it: a call without a service type or without a valid shop
  creates nothing and returns an error of kind InvalidInput or ShopNotFound. It does not
  hold: with an empty service type the handler returns at line 39, with no request, no
  alert and no error value.
\<close>

theorem empty_service_counterexample:
  "createAppointment ''alice'' ''a1'' ''t0'' (Some main_street) [] [] (queue_of [])
     = (Returned, queue_of [])"
  by (simp add: createAppointment_def)

text \<open>
  C7, amended. A call with no selected shop or with an empty service type creates no
  appointment and returns silently. A call whose selected shop is not a row of shops
  creates no appointment and ends with the alert 'Failed to create appointment'. There
  are no error kinds.
\<close>

theorem createAppointment_admission:
  "(selectedShop = None \<or> serviceType = [] \<longrightarrow>
      createAppointment uid new_id t selectedShop serviceType notes_in d = (Returned, d)) \<and>
   (\<forall>sh. selectedShop = Some sh \<and> serviceType \<noteq> [] \<and> \<not> shop_exists d (s_id sh) \<longrightarrow>
      createAppointment uid new_id t selectedShop serviceType notes_in d
        = (Alerted ''Failed to create appointment'', d))"
  by (auto simp: createAppointment_def insert_appointment_def new_row_def split: option.splits)

text \<open>
  The amended C7 with no shop selected, with no service type, and with a shop that is
  not in the table.
\<close>

theorem createAppointment_admission_witness:
  "createAppointment ''alice'' ''a1'' ''t0'' None ''haircut'' [] (queue_of [])
     = (Returned, queue_of []) \<and>
   createAppointment ''alice'' ''a1'' ''t0'' (Some main_street) [] ''short'' (queue_of [])
     = (Returned, queue_of []) \<and>
   \<not> shop_exists (queue_of []) (s_id \<lparr>s_id = ''s9'', s_name = ''Gone''\<rparr>) \<and>
   createAppointment ''alice'' ''a1'' ''t0'' (Some \<lparr>s_id = ''s9'', s_name = ''Gone''\<rparr>)
       ''haircut'' [] (queue_of [])
     = (Alerted ''Failed to create appointment'', queue_of [])"
proof -
  have gone: "\<not> shop_exists (queue_of []) (s_id \<lparr>s_id = ''s9'', s_name = ''Gone''\<rparr>)"
    by (simp add: shop_exists_def queue_of_def main_street_def)
  have ne: "''haircut'' \<noteq> []" by simp
  show ?thesis
    using createAppointment_admission[of None "''haircut''" "''alice''" "''a1''" "''t0''" "[]"
        "queue_of []"]
      createAppointment_admission[of "Some main_street" "[]" "''alice''" "''a1''" "''t0''"
        "''short''" "queue_of []"]
      createAppointment_admission[of "Some \<lparr>s_id = ''s9'', s_name = ''Gone''\<rparr>" "''haircut''"
        "''alice''" "''a1''" "''t0''" "[]" "queue_of []"]
      gone ne
    by blast
qed

subsection \<open>C8: the effects of starting and completing\<close>

text \<open>
  C8. Rows keep their place in the table, so the appointment at place \<open>k\<close> before and
  after a request is the same appointment. If it was waiting and startService left it
  in\_progress, its \<open>started_at\<close> is the time of the call and its \<open>barber_id\<close> the acting
  barber; if it was in\_progress and completeService left it completed, its
  \<open>completed_at\<close> is the time of the call.
\<close>

theorem service_sets_timestamps:
  "(k < length (appointments d) \<and> status (appointments d ! k) = ''waiting'' \<and>
    status (appointments (snd (startService uid now i d)) ! k) = ''in_progress'' \<longrightarrow>
      started_at (appointments (snd (startService uid now i d)) ! k) = Some now \<and>
      barber_id (appointments (snd (startService uid now i d)) ! k) = Some uid \<and>
      a_id (appointments (snd (startService uid now i d)) ! k) = a_id (appointments d ! k)) \<and>
   (k < length (appointments d) \<and> status (appointments d ! k) = ''in_progress'' \<and>
    status (appointments (snd (completeService uid now i d)) ! k) = ''completed'' \<longrightarrow>
      completed_at (appointments (snd (completeService uid now i d)) ! k) = Some now \<and>
      a_id (appointments (snd (completeService uid now i d)) ! k) = a_id (appointments d ! k))"
  by (auto simp: startService_result completeService_result split: if_splits)

text \<open>C8 on carl starting alice's waiting appointment, and completing it once started.\<close>

theorem service_sets_timestamps_witness:
  "status (appointments (queue_of [booking ''a1'' ''alice'' ''waiting'' 1]) ! 0) = ''waiting'' \<and>
   status (appointments (snd (startService ''carl'' ''t1'' ''a1''
      (queue_of [booking ''a1'' ''alice'' ''waiting'' 1]))) ! 0) = ''in_progress'' \<and>
   started_at (appointments (snd (startService ''carl'' ''t1'' ''a1''
      (queue_of [booking ''a1'' ''alice'' ''waiting'' 1]))) ! 0) = Some ''t1'' \<and>
   barber_id (appointments (snd (startService ''carl'' ''t1'' ''a1''
      (queue_of [booking ''a1'' ''alice'' ''waiting'' 1]))) ! 0) = Some ''carl'' \<and>
   status (appointments (queue_of [booking ''a1'' ''alice'' ''in_progress'' 1]) ! 0)
     = ''in_progress'' \<and>
   status (appointments (snd (completeService ''carl'' ''t2'' ''a1''
      (queue_of [booking ''a1'' ''alice'' ''in_progress'' 1]))) ! 0) = ''completed'' \<and>
   completed_at (appointments (snd (completeService ''carl'' ''t2'' ''a1''
      (queue_of [booking ''a1'' ''alice'' ''in_progress'' 1]))) ! 0) = Some ''t2''"
proof -
  let ?d = "queue_of [booking ''a1'' ''alice'' ''waiting'' 1]"
  let ?e = "queue_of [booking ''a1'' ''alice'' ''in_progress'' 1]"
  have k: "0 < length (appointments ?d)" "0 < length (appointments ?e)"
    by (simp_all add: queue_of_def)
  have w: "status (appointments ?d ! 0) = ''waiting''"
    and p: "status (appointments ?e ! 0) = ''in_progress''"
    by (simp_all add: queue_of_def booking_def)
  have s: "status (appointments (snd (startService ''carl'' ''t1'' ''a1'' ?d)) ! 0)
             = ''in_progress''"
    by (simp add: model_defs)
  have c: "status (appointments (snd (completeService ''carl'' ''t2'' ''a1'' ?e)) ! 0)
             = ''completed''"
    by (simp add: model_defs)
  show ?thesis
    using service_sets_timestamps[of 0 ?d "''carl''" "''t1''" "''a1''"]
      service_sets_timestamps[of 0 ?e "''carl''" "''t2''" "''a1''"] k w p s c
    by blast
qed

subsection \<open>C9: empty notes\<close>

text \<open>
  C9. A createAppointment call whose notes input is the empty string either creates
  nothing, or appends one appointment whose notes column is NULL (the key is undefined
  in the inserted object), never the empty string.
\<close>

theorem empty_notes_stored_as_null:
  assumes "createAppointment uid new_id t selectedShop serviceType [] d = (oc, d')"
  shows "(oc \<noteq> Finished \<and> d' = d) \<or>
         (oc = Finished \<and> (\<exists>a. appointments d' = appointments d @ [a] \<and> a_id a = new_id \<and>
                                 notes_text a = None))"
  using createAppointment_cases[OF assms] by (auto simp: new_row_def)

text \<open>C9 on alice's booking without notes.\<close>

theorem empty_notes_stored_as_null_witness:
  "createAppointment ''alice'' ''a1'' ''t0'' (Some main_street) ''haircut'' [] (queue_of [])
     = (Finished, queue_of [booking ''a1'' ''alice'' ''waiting'' 1]) \<and>
   (\<exists>a. appointments (queue_of [booking ''a1'' ''alice'' ''waiting'' 1])
          = appointments (queue_of []) @ [a] \<and> a_id a = ''a1'' \<and> notes_text a = None)"
proof -
  have c: "createAppointment ''alice'' ''a1'' ''t0'' (Some main_street) ''haircut'' []
             (queue_of []) = (Finished, queue_of [booking ''a1'' ''alice'' ''waiting'' 1])"
    by (simp add: model_defs)
  show ?thesis using empty_notes_stored_as_null[OF c] c by blast
qed

subsection \<open>C10: the frame of completeService\<close>

text \<open>
  C10. completeService leaves the columns id, shop\_id, customer\_id, barber\_id,
  queue\_position, service\_type, notes, created\_at, started\_at and updated\_at of
  every appointment as they were, row by row; only status and completed\_at can differ.
  The other tables are not written.
\<close>

theorem completeService_frame:
  "map (\<lambda>a. (a_id a, shop_id a, customer_id a, barber_id a, queue_position a, service_type a,
              notes_text a, created_at a, started_at a, updated_at a))
       (appointments (snd (completeService uid now i d))) =
   map (\<lambda>a. (a_id a, shop_id a, customer_id a, barber_id a, queue_position a, service_type a,
              notes_text a, created_at a, started_at a, updated_at a))
       (appointments d) \<and>
   profiles (snd (completeService uid now i d)) = profiles d \<and>
   shops (snd (completeService uid now i d)) = shops d \<and>
   shop_barbers (snd (completeService uid now i d)) = shop_barbers d"
  by (simp add: completeService_result)

end
